theory Spec2Isabelle
  imports Complex_Main "HOL-Library.Sublist"
begin

section \<open>Errors and tensors\<close>

text \<open>
  The three exceptions the module can raise: a failed \<^verbatim>\<open>assert\<close>, the
  \<^verbatim>\<open>ValueError\<close> of \<^verbatim>\<open>gen_eig_chol\<close> with its message, and the
  \<^verbatim>\<open>RuntimeError\<close> of a tensor primitive (shape mismatch, failed factorisation).
\<close>

datatype error = AssertionError | ValueError string | RuntimeError

definition bind_err :: "error + 'a \<Rightarrow> ('a \<Rightarrow> error + 'b) \<Rightarrow> error + 'b" where
  "bind_err r f = (case r of Inl e \<Rightarrow> Inl e | Inr x \<Rightarrow> f x)"

text \<open>
  A two-dimensional tensor is its list of rows together with its number of columns, so
  that a tensor of shape \<open>(0, k)\<close> keeps its \<open>k\<close>. Entries are exact: no rounding is
  modelled. A one-dimensional tensor is a list.
\<close>

datatype 'a tensor = Tensor (ncols: nat) (rows: "'a list list")

definition nrows :: "'a tensor \<Rightarrow> nat" where
  "nrows A = length (rows A)"

definition wf_tensor :: "'a tensor \<Rightarrow> bool" where
  "wf_tensor A = list_all (\<lambda>r. length r = ncols A) (rows A)"

definition entry :: "'a tensor \<Rightarrow> nat \<Rightarrow> nat \<Rightarrow> 'a" where
  "entry A i j = rows A ! i ! j"

definition tabulate :: "nat \<Rightarrow> nat \<Rightarrow> (nat \<Rightarrow> nat \<Rightarrow> 'a) \<Rightarrow> 'a tensor" where
  "tabulate n m f = Tensor m (map (\<lambda>i. map (\<lambda>j. f i j) [0..<m]) [0..<n])"

text \<open>\<^verbatim>\<open>A.t()\<close>\<close>

definition t :: "'a tensor \<Rightarrow> 'a tensor" where
  "t A = tabulate (ncols A) (nrows A) (\<lambda>i j. entry A j i)"

text \<open>
  Broadcasting of one dimension against another, and the expansion of a tensor to a
  shape it broadcasts to: a dimension of size 1 is repeated.
\<close>

definition bdim :: "nat \<Rightarrow> nat \<Rightarrow> nat option" where
  "bdim d e = (if d = e then Some d else if d = 1 then Some e
               else if e = 1 then Some d else None)"

definition expand :: "'a tensor \<Rightarrow> nat \<Rightarrow> nat \<Rightarrow> 'a tensor" where
  "expand A n m =
     tabulate n m (\<lambda>i j. entry A (if nrows A = 1 then 0 else i) (if ncols A = 1 then 0 else j))"

definition pointwise :: "('a \<Rightarrow> 'b \<Rightarrow> 'c) \<Rightarrow> 'a tensor \<Rightarrow> 'b tensor \<Rightarrow> error + 'c tensor" where
  "pointwise f A B =
     (case (bdim (nrows A) (nrows B), bdim (ncols A) (ncols B)) of
        (Some n, Some m) \<Rightarrow>
          Inr (tabulate n m (\<lambda>i j. f (entry (expand A n m) i j) (entry (expand B n m) i j)))
      | _ \<Rightarrow> Inl RuntimeError)"

text \<open>\<^verbatim>\<open>torch.multiply(A, B)\<close>\<close>

definition multiply :: "'a::times tensor \<Rightarrow> 'a tensor \<Rightarrow> error + 'a tensor" where
  "multiply A B = pointwise (*) A B"

text \<open>
  \<^verbatim>\<open>C += M\<close>: the in-place sum keeps the shape of \<open>C\<close>, so \<open>M\<close> must broadcast
  to it.
\<close>

definition iadd :: "'a::plus tensor \<Rightarrow> 'a tensor \<Rightarrow> error + 'a tensor" where
  "iadd C M =
     (if (nrows M = nrows C \<or> nrows M = 1) \<and> (ncols M = ncols C \<or> ncols M = 1)
      then Inr (tabulate (nrows C) (ncols C)
                  (\<lambda>i j. entry C i j + entry (expand M (nrows C) (ncols C)) i j))
      else Inl RuntimeError)"

text \<open>\<^verbatim>\<open>torch.matmul(A, B)\<close> on two-dimensional tensors\<close>

definition matmul :: "'a::{comm_monoid_add,times} tensor \<Rightarrow> 'a tensor \<Rightarrow> error + 'a tensor" where
  "matmul A B =
     (if ncols A = nrows B
      then Inr (tabulate (nrows A) (ncols B)
                  (\<lambda>i j. sum_list (map (\<lambda>k. entry A i k * entry B k j) [0..<ncols A])))
      else Inl RuntimeError)"

text \<open>\<^verbatim>\<open>torch.reshape(p, (-1, 1))\<close> of a one-dimensional tensor\<close>

definition reshape_col :: "'a list \<Rightarrow> 'a tensor" where
  "reshape_col p = Tensor 1 (map (\<lambda>x. [x]) p)"

text \<open>\<^verbatim>\<open>torch.tile(A, (1, k))\<close>: every row repeated \<open>k\<close> times side by side\<close>

definition tile_cols :: "'a tensor \<Rightarrow> nat \<Rightarrow> 'a tensor" where
  "tile_cols A k = Tensor (ncols A * k) (map (\<lambda>r. concat (replicate k r)) (rows A))"

section \<open>accumulate\_correlation\_matrices\<close>

text \<open>
  The four accumulators are updated in place, one after the other, and returned. The
  model passes them in and returns the updated four; they are four distinct objects.
  An exception ends the call, and the model does not say which accumulators had been
  updated by then.
\<close>

definition accumulate_correlation_matrices ::
  "'a::{comm_monoid_add,times} tensor \<Rightarrow> 'a tensor \<Rightarrow> 'a list \<Rightarrow>
   'a tensor \<Rightarrow> 'a tensor \<Rightarrow> 'a tensor \<Rightarrow> 'a tensor \<Rightarrow>
   error + ('a tensor \<times> 'a tensor \<times> 'a tensor \<times> 'a tensor)" where
  "accumulate_correlation_matrices z_t0 z_tt pathweight C00 C01 C10 C11 =
     (if \<not> (nrows z_t0 = nrows z_tt \<and> nrows z_tt = length pathweight) then Inl AssertionError
      else if \<not> (ncols z_t0 = ncols z_tt) then Inl AssertionError
      else
        let W = tile_cols (reshape_col pathweight) (ncols z_tt) in
        bind_err (multiply W z_tt) (\<lambda>z_tt_r.
        bind_err (multiply W z_t0) (\<lambda>z_t0_r.
        bind_err (bind_err (matmul (t z_t0) z_t0_r) (iadd C00)) (\<lambda>C00'.
        bind_err (bind_err (matmul (t z_t0) z_tt_r) (iadd C01)) (\<lambda>C01'.
        bind_err (bind_err (matmul (t z_tt) z_t0_r) (iadd C10)) (\<lambda>C10'.
        bind_err (bind_err (matmul (t z_tt) z_tt_r) (iadd C11)) (\<lambda>C11'.
        Inr (C00', C01', C10', C11'))))))))"

text \<open>\<^verbatim>\<open>torch.zeros(n, m)\<close>, the initial value of an accumulator\<close>

definition zeros :: "nat \<Rightarrow> nat \<Rightarrow> 'a::zero tensor" where
  "zeros n m = tabulate n m (\<lambda>i j. 0)"

text \<open>
  \<^verbatim>\<open>torch.cat((A, B), 0)\<close>: the rows of \<open>B\<close> below those of \<open>A\<close>. The
  concatenation of two one-dimensional tensors is \<open>@\<close>.
\<close>

definition cat_rows :: "'a tensor \<Rightarrow> 'a tensor \<Rightarrow> error + 'a tensor" where
  "cat_rows A B = (if ncols A = ncols B then Inr (Tensor (ncols A) (rows A @ rows B))
                   else Inl RuntimeError)"

text \<open>
  The weighted second moment \<open>A\<^sup>T \<cdot> (W \<odot> B)\<close> that one call adds to an accumulator,
  entry by entry: \<open>\<Sum>r. A[r, i] * (p[r] * B[r, j])\<close>, in the order of the source's products.
\<close>

definition increment :: "'a::{comm_monoid_add,times} list \<Rightarrow> 'a tensor \<Rightarrow> 'a tensor \<Rightarrow> 'a tensor" where
  "increment p A B =
     tabulate (ncols A) (ncols B)
       (\<lambda>i j. sum_list (map (\<lambda>r. entry A r i * (p ! r * entry B r j)) [0..<length p]))"

section \<open>Floating-point values with infinities and NaN\<close>

text \<open>
  \<^verbatim>\<open>stable_symmetric_inverse\<close> divides by eigenvalues that it has set to zero, so
  its entries need the special values of IEEE arithmetic. A value is a real number
  (exact: neither rounding nor overflow is modelled, and there is one zero, the
  positive one), an infinity or NaN. Sums and products of special values follow
  IEEE 754: \<open>\<infinity> - \<infinity>\<close> and \<open>0 * \<infinity>\<close> are NaN, and NaN propagates.
\<close>

datatype fl = Fin real | PInf | NInf | NaN

instantiation fl :: "{comm_monoid_add, ab_semigroup_mult}"
begin

definition zero_fl :: fl where "zero_fl = Fin 0"

fun plus_fl :: "fl \<Rightarrow> fl \<Rightarrow> fl" where
  "plus_fl (Fin x) (Fin y) = Fin (x + y)"
| "plus_fl NaN b = NaN"
| "plus_fl a NaN = NaN"
| "plus_fl PInf NInf = NaN"
| "plus_fl NInf PInf = NaN"
| "plus_fl PInf b = PInf"
| "plus_fl a PInf = PInf"
| "plus_fl NInf b = NInf"
| "plus_fl a NInf = NInf"

definition inf_of_sign :: "real \<Rightarrow> fl" where
  "inf_of_sign x = (if x = 0 then NaN else if 0 < x then PInf else NInf)"

fun times_fl :: "fl \<Rightarrow> fl \<Rightarrow> fl" where
  "times_fl (Fin x) (Fin y) = Fin (x * y)"
| "times_fl NaN b = NaN"
| "times_fl a NaN = NaN"
| "times_fl (Fin x) PInf = inf_of_sign x"
| "times_fl PInf (Fin y) = inf_of_sign y"
| "times_fl (Fin x) NInf = inf_of_sign (- x)"
| "times_fl NInf (Fin y) = inf_of_sign (- y)"
| "times_fl PInf PInf = PInf"
| "times_fl NInf NInf = PInf"
| "times_fl PInf NInf = NInf"
| "times_fl NInf PInf = NInf"

instance
proof
  fix a b c :: fl
  show "a + b + c = a + (b + c)"
    by (cases a; cases b; cases c) simp_all
  show "a + b = b + a"
    by (cases a; cases b) simp_all
  show "0 + a = a"
    by (cases a) (simp_all add: zero_fl_def)
  show "a * b = b * a"
    by (cases a; cases b) simp_all
  show "a * b * c = a * (b * c)"
    by (cases a; cases b; cases c)
       (auto simp: inf_of_sign_def zero_less_mult_iff mult_less_0_iff not_less
             split: if_splits)
qed

end

section \<open>The primitives of the linear-algebra library\<close>

text \<open>
  \<^verbatim>\<open>torch.linalg.cholesky\<close>, \<^verbatim>\<open>torch.linalg.inv\<close> and
  \<^verbatim>\<open>torch.linalg.eigh\<close> are numerical algorithms of the library, not of this
  module: they are parameters of the model. \<open>None\<close> is the library's
  \<^verbatim>\<open>RuntimeError\<close>. What a theorem needs of their results is a hypothesis of
  that theorem.
\<close>

record 'a linalg =
  linalg_cholesky :: "'a tensor \<Rightarrow> 'a tensor option"
  linalg_inv :: "'a tensor \<Rightarrow> 'a tensor option"
  linalg_eigh :: "'a tensor \<Rightarrow> ('a list \<times> 'a tensor) option"

section \<open>stable\_symmetric\_inverse\<close>

text \<open>
  \<^verbatim>\<open>torch.isclose\<close>: equal values are close, infinities included; otherwise the
  difference must be finite and at most \<open>atol + |rtol * other|\<close>. NaN is close to nothing.
\<close>

fun isclose :: "real \<Rightarrow> real \<Rightarrow> fl \<Rightarrow> fl \<Rightarrow> bool" where
  "isclose rtol atol (Fin x) (Fin y) = (x = y \<or> \<bar>x - y\<bar> \<le> atol + \<bar>rtol * y\<bar>)"
| "isclose rtol atol PInf PInf = True"
| "isclose rtol atol NInf NInf = True"
| "isclose rtol atol a b = False"

text \<open>\<^verbatim>\<open>torch.allclose(A, B, rtol, atol)\<close>; the two tensors are broadcast first.\<close>

definition allclose :: "real \<Rightarrow> real \<Rightarrow> fl tensor \<Rightarrow> fl tensor \<Rightarrow> error + bool" where
  "allclose rtol atol A B =
     bind_err (pointwise (isclose rtol atol) A B)
       (\<lambda>T. Inr (list_all (list_all (\<lambda>b. b)) (rows T)))"

text \<open>\<^verbatim>\<open>torch.finfo(torch.float32).eps\<close>\<close>

definition eps32 :: real where
  "eps32 = 1 / 2 ^ 23"

text \<open>\<^verbatim>\<open>w > c\<close> for a scalar \<open>c\<close>: false at NaN\<close>

fun gt :: "fl \<Rightarrow> real \<Rightarrow> bool" where
  "gt (Fin x) c = (c < x)"
| "gt PInf c = True"
| "gt NInf c = False"
| "gt NaN c = False"

text \<open>
  \<^verbatim>\<open>w ** (-0.5)\<close> and \<^verbatim>\<open>w ** (-1.0)\<close>, the two powers of the source. A zero
  raised to a negative power is \<open>+\<infinity>\<close>, an infinity gives zero, and the square root of
  a negative number is NaN.
\<close>

datatype exponent = MinusHalf | MinusOne

fun pow :: "fl \<Rightarrow> exponent \<Rightarrow> fl" where
  "pow (Fin x) MinusOne = (if x = 0 then PInf else Fin (1 / x))"
| "pow (Fin x) MinusHalf = (if x = 0 then PInf else if x < 0 then NaN else Fin (1 / sqrt x))"
| "pow PInf e = Fin 0"
| "pow NInf e = Fin 0"
| "pow NaN e = NaN"

text \<open>\<^verbatim>\<open>torch.diag(v)\<close> of a one-dimensional tensor\<close>

definition diag :: "'a::zero list \<Rightarrow> 'a tensor" where
  "diag v = tabulate (length v) (length v) (\<lambda>i j. if i = j then v ! i else 0)"

text \<open>
  The assert calls \<^verbatim>\<open>torch.allclose(A, A.t(), atol=1e-6)\<close>, which leaves
  \<open>rtol\<close> at its default \<open>1e-5\<close>. A shape that does not broadcast raises the
  library's error before the assert sees a value.
\<close>

definition stable_symmetric_inverse :: "fl linalg \<Rightarrow> fl tensor \<Rightarrow> bool \<Rightarrow> error + fl tensor" where
  "stable_symmetric_inverse P A ret_sqrt =
     bind_err (allclose (1 / 10 ^ 5) (1 / 10 ^ 6) A (t A)) (\<lambda>ok.
       if \<not> ok then Inl AssertionError
       else case linalg_eigh P A of
         None \<Rightarrow> Inl RuntimeError
       | Some (w, V) \<Rightarrow>
           let w = map (\<lambda>x. if gt x eps32 then x else 0) w in
           if ret_sqrt
           then bind_err (matmul (diag (map (\<lambda>x. pow x MinusHalf) w)) (t V)) (matmul V)
           else bind_err (matmul (diag (map (\<lambda>x. pow x MinusOne) w)) (t V)) (matmul V))"

text \<open>A tensor of finite values\<close>

definition finite_tensor :: "real tensor \<Rightarrow> fl tensor" where
  "finite_tensor R = Tensor (ncols R) (map (map Fin) (rows R))"

section \<open>gen\_eig\_chol\<close>

text \<open>\<^verbatim>\<open>torch.flip(w, [0])\<close> of a one-dimensional tensor\<close>

definition flip0 :: "'a list \<Rightarrow> 'a list" where
  "flip0 w = rev w"

text \<open>\<^verbatim>\<open>torch.flip(v, [1])\<close>: the columns in reverse order\<close>

definition flip1 :: "'a tensor \<Rightarrow> 'a tensor" where
  "flip1 v = Tensor (ncols v) (map rev (rows v))"

text \<open>The message of the \<^verbatim>\<open>ValueError\<close>, a string literal over two lines.\<close>

definition cholesky_message :: string where
  "cholesky_message =
     ''Q matrix is not positive semi-definite. Try reducing the learning rate,'' @ [CHR 0x0A] @
     ''             increasing the batch size or asking for fewer CVs (decreasing output_size)''"

text \<open>
  Only the Cholesky factorisation is inside the \<^verbatim>\<open>try\<close>: its
  \<^verbatim>\<open>RuntimeError\<close> becomes the \<^verbatim>\<open>ValueError\<close>, and an error of a later
  primitive is raised as it is. The two asserts on the symmetry of \<open>C\<close> and \<open>Q\<close> are
  commented out in the source and are not part of the function.
\<close>

definition gen_eig_chol ::
  "'a::{comm_monoid_add,times} linalg \<Rightarrow> 'a tensor \<Rightarrow> 'a tensor \<Rightarrow> error + ('a list \<times> 'a tensor)" where
  "gen_eig_chol P C Q =
     (case linalg_cholesky P Q of
        None \<Rightarrow> Inl (ValueError cholesky_message)
      | Some L \<Rightarrow>
         (case linalg_inv P L of
            None \<Rightarrow> Inl RuntimeError
          | Some Linv \<Rightarrow>
             (case linalg_inv P (t L) of
                None \<Rightarrow> Inl RuntimeError
              | Some LTinv \<Rightarrow>
                 bind_err (bind_err (matmul C LTinv) (matmul Linv)) (\<lambda>Ctilde.
                   case linalg_eigh P Ctilde of
                     None \<Rightarrow> Inl RuntimeError
                   | Some (w, vtilde) \<Rightarrow>
                       bind_err (matmul LTinv vtilde) (\<lambda>v. Inr (flip0 w, flip1 v))))))"

section \<open>Matrix notions used to state the properties\<close>

text \<open>The product of two matrices whose shapes fit, as \<open>matmul\<close> computes it.\<close>

definition mm :: "'a::{comm_monoid_add,times} tensor \<Rightarrow> 'a tensor \<Rightarrow> 'a tensor" where
  "mm A B = tabulate (nrows A) (ncols B)
              (\<lambda>i j. sum_list (map (\<lambda>k. entry A i k * entry B k j) [0..<ncols A]))"

definition eye :: "nat \<Rightarrow> 'a::{zero,one} tensor" where
  "eye n = tabulate n n (\<lambda>i j. if i = j then 1 else 0)"

text \<open>Column \<open>j\<close> of a matrix, and the product of a matrix with a vector.\<close>

definition column :: "'a tensor \<Rightarrow> nat \<Rightarrow> 'a list" where
  "column A j = map (\<lambda>r. r ! j) (rows A)"

definition mv :: "'a::{comm_monoid_add,times} tensor \<Rightarrow> 'a list \<Rightarrow> 'a list" where
  "mv A x = map (\<lambda>r. sum_list (map2 (*) r x)) (rows A)"

section \<open>Facts about the tensor operations\<close>

lemma bind_err_simps [simp]:
  "bind_err (Inl e) f = Inl e" "bind_err (Inr x) f = f x"
  by (simp_all add: bind_err_def)

lemma tabulate_sel [simp]:
  "ncols (tabulate n m f) = m" "nrows (tabulate n m f) = n"
  by (simp_all add: tabulate_def nrows_def)

lemma wf_tabulate [simp]: "wf_tensor (tabulate n m f)"
  by (simp add: wf_tensor_def tabulate_def list_all_iff)

lemma entry_tabulate [simp]: "i < n \<Longrightarrow> j < m \<Longrightarrow> entry (tabulate n m f) i j = f i j"
  by (simp add: entry_def tabulate_def)

lemma tabulate_cong:
  "(\<And>i j. i < n \<Longrightarrow> j < m \<Longrightarrow> f i j = g i j) \<Longrightarrow> tabulate n m f = tabulate n m g"
  by (simp add: tabulate_def)

lemma tabulate_entry:
  assumes "wf_tensor A"
  shows "tabulate (nrows A) (ncols A) (entry A) = A"
proof -
  have "map (\<lambda>i. map (\<lambda>j. rows A ! i ! j) [0..<ncols A]) [0..<length (rows A)] = rows A"
  proof (rule nth_equalityI)
    fix i assume "i < length (map (\<lambda>i. map (\<lambda>j. rows A ! i ! j) [0..<ncols A]) [0..<length (rows A)])"
    then have i: "i < length (rows A)" by simp
    with assms have "length (rows A ! i) = ncols A"
      by (simp add: wf_tensor_def list_all_length)
    then have "map (\<lambda>j. rows A ! i ! j) [0..<ncols A] = rows A ! i"
      by (metis map_nth)
    with i show "map (\<lambda>i. map (\<lambda>j. rows A ! i ! j) [0..<ncols A]) [0..<length (rows A)] ! i = rows A ! i"
      by simp
  qed simp
  then show ?thesis
    by (cases A) (simp add: tabulate_def entry_def nrows_def)
qed

lemma tensor_eqI:
  assumes "wf_tensor A" "wf_tensor B" "nrows A = nrows B" "ncols A = ncols B"
    and "\<And>i j. i < nrows A \<Longrightarrow> j < ncols A \<Longrightarrow> entry A i j = entry B i j"
  shows "A = B"
proof -
  have "tabulate (nrows A) (ncols A) (entry A) = tabulate (nrows A) (ncols A) (entry B)"
    by (rule tabulate_cong) (rule assms(5))
  moreover have "tabulate (nrows A) (ncols A) (entry A) = A"
    using assms(1) by (rule tabulate_entry)
  moreover have "tabulate (nrows A) (ncols A) (entry B) = B"
    using assms(2) tabulate_entry [of B] by (simp add: assms(3,4))
  ultimately show ?thesis by simp
qed

lemma pointwise_not_assert: "pointwise f A B \<noteq> Inl AssertionError"
  by (simp add: pointwise_def split: option.splits)

lemma iadd_not_assert: "iadd C M \<noteq> Inl AssertionError"
  by (simp add: iadd_def)

lemma matmul_not_assert: "matmul A B \<noteq> Inl AssertionError"
  by (simp add: matmul_def)

lemma bind_err_not_assert:
  "r \<noteq> Inl AssertionError \<Longrightarrow> (\<And>x. f x \<noteq> Inl AssertionError) \<Longrightarrow>
   bind_err r f \<noteq> Inl AssertionError"
  by (cases r) simp_all

lemma matmul_iadd_not_assert: "bind_err (matmul A B) (iadd C) \<noteq> Inl AssertionError"
  by (intro bind_err_not_assert matmul_not_assert iadd_not_assert)

lemma entry_expand_same_shape:
  "nrows M = n \<Longrightarrow> ncols M = m \<Longrightarrow> i < n \<Longrightarrow> j < m \<Longrightarrow> entry (expand M n m) i j = entry M i j"
  by (auto simp: expand_def)

lemma iadd_same_shape:
  "nrows M = nrows C \<Longrightarrow> ncols M = ncols C \<Longrightarrow>
   iadd C M = Inr (tabulate (nrows C) (ncols C) (\<lambda>i j. entry C i j + entry M i j))"
  unfolding iadd_def
  by (simp add: entry_expand_same_shape cong: tabulate_cong)

lemma iadd_zero:
  fixes C :: "'a::comm_monoid_add tensor"
  assumes "wf_tensor C" "nrows C = k" "ncols C = k"
  shows "iadd C (tabulate k k (\<lambda>i j. 0)) = Inr C"
proof -
  have "tabulate (nrows C) (ncols C) (\<lambda>i j. entry C i j + entry (tabulate k k (\<lambda>i j. 0::'a)) i j)
        = tabulate (nrows C) (ncols C) (entry C)"
    by (rule tabulate_cong) (simp add: assms)
  also have "\<dots> = C"
    using assms(1) by (rule tabulate_entry)
  finally show ?thesis
    using assms by (simp add: iadd_same_shape)
qed

lemma multiply_same_shape:
  "nrows A = nrows B \<Longrightarrow> ncols A = ncols B \<Longrightarrow>
   multiply A B = Inr (tabulate (nrows B) (ncols B) (\<lambda>i j. entry A i j * entry B i j))"
  unfolding multiply_def pointwise_def bdim_def
  by (simp add: entry_expand_same_shape cong: tabulate_cong)

lemma shape_W [simp]:
  "nrows (tile_cols (reshape_col p) k) = length p"
  "ncols (tile_cols (reshape_col p) k) = k"
  by (simp_all add: tile_cols_def reshape_col_def nrows_def)

lemma shape_t [simp]: "nrows (t A) = ncols A" "ncols (t A) = nrows A"
  by (simp_all add: t_def)

lemma wf_t [simp]: "wf_tensor (t A)"
  by (simp add: t_def)

lemma entry_t [simp]: "i < ncols A \<Longrightarrow> j < nrows A \<Longrightarrow> entry (t A) i j = entry A j i"
  by (simp add: t_def)

lemma concat_replicate_single: "concat (replicate k [x]) = replicate k x"
  by (induction k) simp_all

lemma entry_W:
  "r < length p \<Longrightarrow> j < k \<Longrightarrow> entry (tile_cols (reshape_col p) k) r j = p ! r"
  by (simp add: entry_def tile_cols_def reshape_col_def concat_replicate_single)

lemma matmul_weighted:
  fixes A B :: "'a::{comm_monoid_add,times} tensor"
  assumes "nrows A = length p" "nrows B = length p"
  shows "bind_err (multiply (tile_cols (reshape_col p) (ncols B)) B) (matmul (t A))
         = Inr (increment p A B)"
proof -
  let ?W = "tile_cols (reshape_col p) (ncols B)"
  let ?WB = "tabulate (nrows B) (ncols B) (\<lambda>i j. entry ?W i j * entry B i j)"
  have "multiply ?W B = Inr ?WB"
    using assms by (simp add: multiply_same_shape)
  moreover have "matmul (t A) ?WB = Inr (increment p A B)"
    unfolding matmul_def increment_def using assms
    by (auto simp: entry_W intro!: tabulate_cong arg_cong [where f = sum_list])
  ultimately show ?thesis by simp
qed

lemma accumulate_unfold:
  fixes z_t0 :: "'a::{comm_monoid_add,times} tensor"
  assumes "nrows z_t0 = length p" "nrows z_tt = length p" "ncols z_t0 = ncols z_tt"
  shows "accumulate_correlation_matrices z_t0 z_tt p C00 C01 C10 C11 =
     bind_err (iadd C00 (increment p z_t0 z_t0)) (\<lambda>C00'.
     bind_err (iadd C01 (increment p z_t0 z_tt)) (\<lambda>C01'.
     bind_err (iadd C10 (increment p z_tt z_t0)) (\<lambda>C10'.
     bind_err (iadd C11 (increment p z_tt z_tt)) (\<lambda>C11'.
     Inr (C00', C01', C10', C11')))))"
proof -
  let ?W = "tile_cols (reshape_col p) (ncols z_tt)"
  have W0: "multiply ?W z_t0 = Inr (tabulate (nrows z_t0) (ncols z_t0) (\<lambda>i j. entry ?W i j * entry z_t0 i j))"
    using assms by (simp add: multiply_same_shape)
  have Wt: "multiply ?W z_tt = Inr (tabulate (nrows z_tt) (ncols z_tt) (\<lambda>i j. entry ?W i j * entry z_tt i j))"
    using assms by (simp add: multiply_same_shape)
  have m: "matmul (t A) (tabulate (length p) (ncols z_tt) (\<lambda>i j. entry ?W i j * entry B i j)) = Inr (increment p A B)"
    if "nrows A = length p" "nrows B = length p" "ncols B = ncols z_tt" for A B :: "'a tensor"
    using matmul_weighted [OF that(1,2)] that by (simp add: multiply_same_shape)
  have "accumulate_correlation_matrices z_t0 z_tt p C00 C01 C10 C11 =
     bind_err (bind_err (matmul (t z_t0) (tabulate (length p) (ncols z_tt) (\<lambda>i j. entry ?W i j * entry z_t0 i j))) (iadd C00)) (\<lambda>C00'.
     bind_err (bind_err (matmul (t z_t0) (tabulate (length p) (ncols z_tt) (\<lambda>i j. entry ?W i j * entry z_tt i j))) (iadd C01)) (\<lambda>C01'.
     bind_err (bind_err (matmul (t z_tt) (tabulate (length p) (ncols z_tt) (\<lambda>i j. entry ?W i j * entry z_t0 i j))) (iadd C10)) (\<lambda>C10'.
     bind_err (bind_err (matmul (t z_tt) (tabulate (length p) (ncols z_tt) (\<lambda>i j. entry ?W i j * entry z_tt i j))) (iadd C11)) (\<lambda>C11'.
     Inr (C00', C01', C10', C11')))))"
    unfolding accumulate_correlation_matrices_def Let_def
    using assms by (simp add: W0 Wt)
  also have "\<dots> = bind_err (iadd C00 (increment p z_t0 z_t0)) (\<lambda>C00'.
     bind_err (iadd C01 (increment p z_t0 z_tt)) (\<lambda>C01'.
     bind_err (iadd C10 (increment p z_tt z_t0)) (\<lambda>C10'.
     bind_err (iadd C11 (increment p z_tt z_tt)) (\<lambda>C11'.
     Inr (C00', C01', C10', C11')))))"
    using assms by (simp only: m bind_err_simps)
  finally show ?thesis .
qed

lemma iadd_tabulate:
  "iadd C (tabulate k k' f) =
     (if (k = nrows C \<or> k = 1) \<and> (k' = ncols C \<or> k' = 1)
      then Inr (tabulate (nrows C) (ncols C)
                  (\<lambda>i j. entry C i j + f (if k = 1 then 0 else i) (if k' = 1 then 0 else j)))
      else Inl RuntimeError)"
  unfolding iadd_def expand_def
  by (auto intro!: tabulate_cong)

lemma iadd_twice:
  fixes C :: "'a::semigroup_add tensor"
  shows "bind_err (iadd C (tabulate k k' f)) (\<lambda>C'. iadd C' (tabulate k k' g))
         = iadd C (tabulate k k' (\<lambda>i j. f i j + g i j))"
  unfolding iadd_tabulate
  by (auto simp: add.assoc intro!: tabulate_cong)

lemma t_tabulate: "t (tabulate n m f) = tabulate m n (\<lambda>i j. f j i)"
  unfolding t_def by (auto intro!: tabulate_cong)

lemma iadd_zeros:
  fixes f :: "nat \<Rightarrow> nat \<Rightarrow> 'a::comm_monoid_add"
  shows "iadd (zeros k k') (tabulate k k' f) = Inr (tabulate k k' f)"
  unfolding iadd_tabulate zeros_def
  by (auto intro!: tabulate_cong)

lemma sum_list_upt_cong:
  "(\<And>r. r < n \<Longrightarrow> f r = g r) \<Longrightarrow> sum_list (map f [0..<n]) = sum_list (map g [0..<n])"
  by (rule arg_cong [where f = sum_list]) simp

lemma t_increment:
  fixes A B :: "'a::{comm_monoid_add,ab_semigroup_mult} tensor"
  shows "t (increment p A B) = increment p B A"
proof -
  have sw: "a * (w * b) = b * (w * a)" for a w b :: 'a
    by (metis mult.commute mult.left_commute)
  show ?thesis
    unfolding increment_def t_tabulate
    by (rule tabulate_cong) (rule sum_list_upt_cong, rule sw)
qed

lemma sum_list_upt_add:
  fixes f :: "nat \<Rightarrow> 'a::monoid_add"
  shows "sum_list (map f [0..<n + m]) = sum_list (map f [0..<n]) + sum_list (map (\<lambda>r. f (n + r)) [0..<m])"
  by (induction m) (simp_all add: add.assoc)

lemma shape_cat:
  "cat_rows A B = Inr Z \<Longrightarrow> nrows Z = nrows A + nrows B \<and> ncols Z = ncols A"
  by (auto simp: cat_rows_def nrows_def split: if_splits)

lemma entry_cat:
  "cat_rows A B = Inr Z \<Longrightarrow>
   entry Z r j = (if r < nrows A then entry A r j else entry B (r - nrows A) j)"
  by (auto simp: cat_rows_def nrows_def entry_def nth_append split: if_splits)

lemma increment_cat:
  fixes A0 :: "'a::{comm_monoid_add,times} tensor"
  assumes "cat_rows A0 B0 = Inr Z0" "cat_rows A1 B1 = Inr Z1"
    and "nrows A0 = length pa" "nrows A1 = length pa"
  shows "increment (pa @ pb) Z0 Z1 =
         tabulate (ncols A0) (ncols A1) (\<lambda>i j.
           sum_list (map (\<lambda>r. entry A0 r i * (pa ! r * entry A1 r j)) [0..<length pa]) +
           sum_list (map (\<lambda>r. entry B0 r i * (pb ! r * entry B1 r j)) [0..<length pb]))"
proof -
  have sh: "nrows Z0 = length pa + nrows B0" "ncols Z0 = ncols A0" "ncols Z1 = ncols A1"
    using assms shape_cat [of A0 B0 Z0] shape_cat [of A1 B1 Z1] by simp_all
  have e0: "entry Z0 r i = (if r < length pa then entry A0 r i else entry B0 (r - length pa) i)" for r i
    using assms(1,3) by (simp add: entry_cat)
  have e1: "entry Z1 r j = (if r < length pa then entry A1 r j else entry B1 (r - length pa) j)" for r j
    using assms(2,4) by (simp add: entry_cat)
  have a: "sum_list (map (\<lambda>r. entry Z0 r i * ((pa @ pb) ! r * entry Z1 r j)) [0..<length pa])
         = sum_list (map (\<lambda>r. entry A0 r i * (pa ! r * entry A1 r j)) [0..<length pa])" for i j
    by (rule sum_list_upt_cong) (simp add: e0 e1 nth_append)
  have b: "sum_list (map (\<lambda>r. entry Z0 (length pa + r) i * ((pa @ pb) ! (length pa + r) * entry Z1 (length pa + r) j)) [0..<length pb])
         = sum_list (map (\<lambda>r. entry B0 r i * (pb ! r * entry B1 r j)) [0..<length pb])" for i j
    by (rule sum_list_upt_cong) (simp add: e0 e1 nth_append)
  have "sum_list (map (\<lambda>r. entry Z0 r i * ((pa @ pb) ! r * entry Z1 r j)) [0..<length (pa @ pb)])
      = sum_list (map (\<lambda>r. entry A0 r i * (pa ! r * entry A1 r j)) [0..<length pa]) +
        sum_list (map (\<lambda>r. entry B0 r i * (pb ! r * entry B1 r j)) [0..<length pb])" for i j
    unfolding length_append sum_list_upt_add a b ..
  then show ?thesis
    unfolding increment_def sh by simp
qed

lemma iadd_Inl: "iadd C M = Inl e \<Longrightarrow> e = RuntimeError"
  by (simp add: iadd_def split: if_splits)

lemma iadd_increment_cat:
  fixes A0 :: "'a::{comm_monoid_add,times} tensor"
  assumes "cat_rows A0 B0 = Inr Z0" "cat_rows A1 B1 = Inr Z1"
    and "nrows A0 = length pa" "nrows A1 = length pa"
  shows "iadd C (increment (pa @ pb) Z0 Z1)
         = bind_err (iadd C (increment pa A0 A1)) (\<lambda>C'. iadd C' (increment pb B0 B1))"
proof -
  have c: "ncols B0 = ncols A0" "ncols B1 = ncols A1"
    using assms(1,2) by (auto simp: cat_rows_def split: if_splits)
  show ?thesis
    unfolding increment_cat [OF assms]
    unfolding increment_def c iadd_twice ..
qed

lemma list_all_tabulate:
  "list_all (list_all (\<lambda>b. b)) (rows (tabulate n m f)) \<longleftrightarrow> (\<forall>i<n. \<forall>j<m. f i j)"
  by (auto simp: tabulate_def list_all_iff)

lemma shape_finite_tensor [simp]:
  "nrows (finite_tensor R) = nrows R" "ncols (finite_tensor R) = ncols R"
  by (simp_all add: finite_tensor_def nrows_def)

lemma entry_finite_tensor:
  "wf_tensor R \<Longrightarrow> i < nrows R \<Longrightarrow> j < ncols R \<Longrightarrow> entry (finite_tensor R) i j = Fin (entry R i j)"
  by (simp add: finite_tensor_def entry_def wf_tensor_def list_all_length nrows_def)

lemma pointwise_same_shape:
  "nrows A = nrows B \<Longrightarrow> ncols A = ncols B \<Longrightarrow>
   pointwise f A B = Inr (tabulate (nrows B) (ncols B) (\<lambda>i j. f (entry A i j) (entry B i j)))"
  unfolding pointwise_def bdim_def
  by (simp add: entry_expand_same_shape cong: tabulate_cong)

lemma allclose_square:
  assumes "wf_tensor R" "nrows R = n" "ncols R = n" "0 \<le> atol"
  shows "allclose rtol atol (finite_tensor R) (t (finite_tensor R))
         = Inr (\<forall>i<n. \<forall>j<n. \<bar>entry R i j - entry R j i\<bar> \<le> atol + \<bar>rtol * entry R j i\<bar>)"
proof -
  have "pointwise (isclose rtol atol) (finite_tensor R) (t (finite_tensor R))
        = Inr (tabulate n n (\<lambda>i j. \<bar>entry R i j - entry R j i\<bar> \<le> atol + \<bar>rtol * entry R j i\<bar>))"
  proof -
    have "pointwise (isclose rtol atol) (finite_tensor R) (t (finite_tensor R))
        = Inr (tabulate n n (\<lambda>i j. isclose rtol atol (entry (finite_tensor R) i j)
                                      (entry (t (finite_tensor R)) i j)))"
      using assms by (simp add: pointwise_same_shape)
    also have "tabulate n n (\<lambda>i j. isclose rtol atol (entry (finite_tensor R) i j)
                                      (entry (t (finite_tensor R)) i j))
        = tabulate n n (\<lambda>i j. \<bar>entry R i j - entry R j i\<bar> \<le> atol + \<bar>rtol * entry R j i\<bar>)"
      using assms(4) by (intro tabulate_cong) (auto simp: assms(1-3) entry_finite_tensor)
    finally show ?thesis .
  qed
  then show ?thesis
    by (simp add: allclose_def list_all_tabulate)
qed

lemma after_check_not_assert:
  "(case linalg_eigh P A of
         None \<Rightarrow> Inl RuntimeError
       | Some (w, V) \<Rightarrow>
           let w = map (\<lambda>x. if gt x eps32 then x else 0) w in
           if ret_sqrt
           then bind_err (matmul (diag (map (\<lambda>x. pow x MinusHalf) w)) (t V)) (matmul V)
           else bind_err (matmul (diag (map (\<lambda>x. pow x MinusOne) w)) (t V)) (matmul V))
   \<noteq> Inl AssertionError"
proof (cases "linalg_eigh P A")
  case None
  then show ?thesis by simp
next
  case (Some r)
  obtain w V where r: "r = (w, V)" by (cases r)
  have "bind_err (matmul D (t V)) (matmul V) \<noteq> Inl AssertionError" for D
    by (intro bind_err_not_assert matmul_not_assert)
  with Some r show ?thesis by (simp add: Let_def)
qed

lemma matmul_mm: "ncols A = nrows B \<Longrightarrow> matmul A B = Inr (mm A B)"
  by (simp add: matmul_def mm_def)

lemma shape_mm [simp]: "nrows (mm A B) = nrows A" "ncols (mm A B) = ncols B"
  by (simp_all add: mm_def)

lemma gen_eig_chol_success:
  assumes "linalg_cholesky P Q = Some L" "nrows L = n" "ncols L = n"
    and "linalg_inv P L = Some Linv" "nrows Linv = n" "ncols Linv = n"
    and "linalg_inv P (t L) = Some LTinv" "nrows LTinv = n" "ncols LTinv = n"
    and "nrows C = n" "ncols C = n"
    and "linalg_eigh P (mm Linv (mm C LTinv)) = Some (w, vtilde)" "nrows vtilde = n"
  shows "gen_eig_chol P C Q = Inr (flip0 w, flip1 (mm LTinv vtilde))"
  using assms by (simp add: gen_eig_chol_def matmul_mm)

lemma sum_list_upt_sum: 
  fixes f :: "nat \<Rightarrow> 'a::comm_monoid_add"
  shows "sum_list (map f [0..<n]) = sum f {..<n}"
  by (induction n) simp_all

lemma wf_mm [simp]: "wf_tensor (mm A B)"
  by (simp add: mm_def)

lemma entry_mm:
  fixes A :: "'a::{comm_monoid_add,times} tensor"
  shows "i < nrows A \<Longrightarrow> j < ncols B \<Longrightarrow>
   entry (mm A B) i j = (\<Sum>k<ncols A. entry A i k * entry B k j)"
  by (simp add: mm_def sum_list_upt_sum)

lemma mm_assoc:
  fixes A :: "'a::comm_semiring_0 tensor"
  assumes "ncols A = nrows B" "ncols B = nrows C"
  shows "mm (mm A B) C = mm A (mm B C)"
proof (rule tensor_eqI)
  fix i j assume "i < nrows (mm (mm A B) C)" "j < ncols (mm (mm A B) C)"
  then have i: "i < nrows A" and j: "j < ncols C" by simp_all
  have "entry (mm (mm A B) C) i j = (\<Sum>k<ncols B. (\<Sum>l<ncols A. entry A i l * entry B l k) * entry C k j)"
    using i j by (simp add: entry_mm)
  also have "\<dots> = (\<Sum>k<ncols B. \<Sum>l<ncols A. entry A i l * (entry B l k * entry C k j))"
    by (simp add: sum_distrib_right mult.assoc)
  also have "\<dots> = (\<Sum>l<ncols A. \<Sum>k<ncols B. entry A i l * (entry B l k * entry C k j))"
    by (rule sum.swap)
  also have "\<dots> = (\<Sum>l<ncols A. entry A i l * (\<Sum>k<ncols B. entry B l k * entry C k j))"
    by (simp add: sum_distrib_left)
  also have "\<dots> = (\<Sum>l<ncols A. entry A i l * entry (mm B C) l j)"
    using j assms by (intro sum.cong refl) (simp add: entry_mm)
  also have "\<dots> = entry (mm A (mm B C)) i j"
    using i j by (simp add: entry_mm)
  finally show "entry (mm (mm A B) C) i j = entry (mm A (mm B C)) i j" .
qed simp_all

lemma mm_eye_left:
  fixes A :: "'a::comm_semiring_1 tensor"
  assumes "wf_tensor A" "nrows A = n"
  shows "mm (eye n) A = A"
proof (rule tensor_eqI)
  fix i j assume "i < nrows (mm (eye n) A)" "j < ncols (mm (eye n) A)"
  then have i: "i < n" and j: "j < ncols A" by (simp_all add: eye_def)
  have "entry (mm (eye n) A) i j = (\<Sum>k<n. (if i = k then 1 else 0) * entry A k j)"
    using i j by (simp add: entry_mm eye_def)
  also have "\<dots> = (\<Sum>k<n. if k = i then entry A k j else 0)"
    by (intro sum.cong refl) simp
  also have "\<dots> = entry A i j"
    using i by simp
  finally show "entry (mm (eye n) A) i j = entry A i j" .
qed (simp_all add: assms eye_def)

lemma t_mm:
  fixes A :: "'a::comm_semiring_0 tensor"
  assumes "ncols A = nrows B"
  shows "t (mm A B) = mm (t B) (t A)"
proof (rule tensor_eqI)
  fix i j assume "i < nrows (t (mm A B))" "j < ncols (t (mm A B))"
  then have i: "i < ncols B" and j: "j < nrows A" by simp_all
  have "entry (t (mm A B)) i j = (\<Sum>k<ncols A. entry A j k * entry B k i)"
    using i j by (simp add: entry_mm)
  also have "\<dots> = (\<Sum>k<ncols A. entry (t B) i k * entry (t A) k j)"
    using i j assms by (intro sum.cong refl) (simp add: mult.commute)
  also have "\<dots> = entry (mm (t B) (t A)) i j"
    using i j assms by (simp add: entry_mm)
  finally show "entry (t (mm A B)) i j = entry (mm (t B) (t A)) i j" .
qed simp_all

lemma t_eye: "t (eye n) = eye n"
  unfolding eye_def t_tabulate by (rule tabulate_cong) auto

lemma t_t: "wf_tensor A \<Longrightarrow> t (t A) = A"
  by (rule tensor_eqI) simp_all

lemma mm_diag:
  fixes V :: "'a::comm_semiring_0 tensor"
  assumes "ncols V = length w"
  shows "mm V (diag w) = tabulate (nrows V) (length w) (\<lambda>i j. w ! j * entry V i j)"
proof -
  have "(\<Sum>k<length w. entry V i k * entry (diag w) k j) = w ! j * entry V i j"
    if "j < length w" for i j
  proof -
    have "(\<Sum>k<length w. entry V i k * entry (diag w) k j)
          = (\<Sum>k<length w. if k = j then entry V i k * w ! k else 0)"
      using that by (intro sum.cong refl) (simp add: diag_def)
    also have "\<dots> = entry V i j * w ! j"
      using that by simp
    finally show ?thesis by (simp add: mult.commute)
  qed
  then show ?thesis
    unfolding mm_def using assms
    by (auto simp: sum_list_upt_sum diag_def intro!: tabulate_cong)
qed

lemma column_nth: "i < nrows A \<Longrightarrow> column A j ! i = entry A i j"
  by (simp add: column_def entry_def nrows_def)

lemma length_column [simp]: "length (column A j) = nrows A"
  by (simp add: column_def nrows_def)

lemma column_flip1:
  assumes "wf_tensor V" "ncols V = n" "i < n"
  shows "column (flip1 V) i = column V (n - 1 - i)"
proof -
  have "rev r ! i = r ! (n - 1 - i)" if "r \<in> set (rows V)" for r
  proof -
    from that assms have "length r = n"
      by (simp add: wf_tensor_def list_all_iff)
    with assms(3) show ?thesis by (simp add: rev_nth)
  qed
  then show ?thesis
    by (simp add: column_def flip1_def)
qed

lemma length_mv [simp]: "length (mv A x) = nrows A"
  by (simp add: mv_def nrows_def)

lemma mv_column:
  fixes A :: "'a::comm_semiring_0 tensor"
  assumes "wf_tensor A" "ncols A = nrows V"
  shows "mv A (column V k) = map (\<lambda>i. \<Sum>j<ncols A. entry A i j * entry V j k) [0..<nrows A]"
proof (rule nth_equalityI)
  show "length (mv A (column V k)) = length (map (\<lambda>i. \<Sum>j<ncols A. entry A i j * entry V j k) [0..<nrows A])"
    by (simp add: mv_def nrows_def)
  fix i assume "i < length (mv A (column V k))"
  then have i: "i < nrows A" by (simp add: mv_def nrows_def)
  then have len: "length (rows A ! i) = ncols A"
    using assms(1) by (simp add: wf_tensor_def list_all_length nrows_def)
  have "mv A (column V k) ! i = sum_list (map2 (*) (rows A ! i) (column V k))"
    using i by (simp add: mv_def nrows_def)
  also have "map2 (*) (rows A ! i) (column V k) = map (\<lambda>j. entry A i j * entry V j k) [0..<ncols A]"
    by (rule nth_equalityI) (simp_all add: len assms(2) column_nth entry_def)
  also have "sum_list \<dots> = (\<Sum>j<ncols A. entry A i j * entry V j k)"
    by (rule sum_list_upt_sum)
  finally show "mv A (column V k) ! i = map (\<lambda>i. \<Sum>j<ncols A. entry A i j * entry V j k) [0..<nrows A] ! i"
    using i by simp
qed

lemma mv_column_mm:
  fixes A :: "'a::comm_semiring_0 tensor"
  assumes "wf_tensor A" "ncols A = nrows V" "k < ncols V"
  shows "mv A (column V k) = column (mm A V) k"
proof (rule nth_equalityI)
  show "length (mv A (column V k)) = length (column (mm A V) k)"
    by simp
  fix i assume "i < length (mv A (column V k))"
  then have i: "i < nrows A" by simp
  then show "mv A (column V k) ! i = column (mm A V) k ! i"
    using assms by (simp add: mv_column column_nth entry_mm)
qed

lemma mm_eye_right:
  fixes A :: "'a::comm_semiring_1 tensor"
  assumes "wf_tensor A" "ncols A = n"
  shows "mm A (eye n) = A"
proof (rule tensor_eqI)
  fix i j assume "i < nrows (mm A (eye n))" "j < ncols (mm A (eye n))"
  then have i: "i < nrows A" and j: "j < n" by (simp_all add: eye_def)
  have "entry (mm A (eye n)) i j = (\<Sum>k<n. entry A i k * (if k = j then 1 else 0))"
    using i j assms by (simp add: entry_mm eye_def)
  also have "\<dots> = (\<Sum>k<n. if k = j then entry A i k else 0)"
    by (intro sum.cong refl) simp
  also have "\<dots> = entry A i j"
    using j by simp
  finally show "entry (mm A (eye n)) i j = entry A i j" .
qed (simp_all add: assms eye_def)

lemma column_eq_nth:
  "column A k = map (\<lambda>i. entry A i k) [0..<nrows A]"
  by (rule nth_equalityI) (simp_all add: column_nth)

lemma column_mm_diag:
  fixes M :: "'a::comm_semiring_0 tensor"
  assumes "ncols M = length w" "k < length w"
  shows "column (mm M (diag w)) k = map (\<lambda>x. w ! k * x) (column M k)"
  unfolding mm_diag [OF assms(1)] column_eq_nth using assms(2)
  by simp

section \<open>The shape checks of the accumulator\<close>

text \<open>
  C7. \<^verbatim>\<open>accumulate_correlation_matrices\<close> raises the assertion error exactly when
  the row counts of \<open>z_t0\<close>, \<open>z_tt\<close> and \<open>pathweight\<close> do not all agree or the column
  counts of \<open>z_t0\<close> and \<open>z_tt\<close> differ: a mismatch always raises it (the two asserts are
  the first statements), and with matching shapes no later step raises it.
\<close>

theorem accumulate_assertion_iff:
  "accumulate_correlation_matrices z_t0 z_tt pathweight C00 C01 C10 C11 = Inl AssertionError
   \<longleftrightarrow> \<not> (nrows z_t0 = nrows z_tt \<and> nrows z_tt = length pathweight \<and> ncols z_t0 = ncols z_tt)"
proof (cases "nrows z_t0 = nrows z_tt \<and> nrows z_tt = length pathweight \<and> ncols z_t0 = ncols z_tt")
  case True
  let ?W = "tile_cols (reshape_col pathweight) (ncols z_tt)"
  have "bind_err (multiply ?W z_tt) (\<lambda>z_tt_r.
        bind_err (multiply ?W z_t0) (\<lambda>z_t0_r.
        bind_err (bind_err (matmul (t z_t0) z_t0_r) (iadd C00)) (\<lambda>C00'.
        bind_err (bind_err (matmul (t z_t0) z_tt_r) (iadd C01)) (\<lambda>C01'.
        bind_err (bind_err (matmul (t z_tt) z_t0_r) (iadd C10)) (\<lambda>C10'.
        bind_err (bind_err (matmul (t z_tt) z_tt_r) (iadd C11)) (\<lambda>C11'.
        Inr (C00', C01', C10', C11'))))))) \<noteq> Inl AssertionError"
    unfolding multiply_def
    by (intro bind_err_not_assert pointwise_not_assert matmul_iadd_not_assert) simp
  with True show ?thesis
    by (simp add: accumulate_correlation_matrices_def Let_def)
next
  case False
  then show ?thesis
    by (auto simp: accumulate_correlation_matrices_def)
qed

section \<open>The empty batch\<close>

text \<open>
  C10. A batch with no observations (\<open>z_t0\<close> and \<open>z_tt\<close> of shape \<open>(0, k)\<close>, an empty
  \<open>pathweight\<close>) passes both asserts, every increment is the \<open>k \<times> k\<close> zero matrix, and
  the four \<open>k \<times> k\<close> accumulators come back unchanged.
\<close>

theorem accumulate_empty_batch:
  fixes C00 :: "'a::{comm_monoid_add,times} tensor"
  assumes "nrows z_t0 = 0" "nrows z_tt = 0" "pathweight = []"
    and "ncols z_t0 = k" "ncols z_tt = k"
    and "wf_tensor C00" "nrows C00 = k" "ncols C00 = k"
    and "wf_tensor C01" "nrows C01 = k" "ncols C01 = k"
    and "wf_tensor C10" "nrows C10 = k" "ncols C10 = k"
    and "wf_tensor C11" "nrows C11 = k" "ncols C11 = k"
  shows "accumulate_correlation_matrices z_t0 z_tt pathweight C00 C01 C10 C11
           = Inr (C00, C01, C10, C11)
       \<and> bind_err (multiply (tile_cols (reshape_col pathweight) (ncols z_tt)) z_t0)
            (matmul (t z_t0)) = Inr (zeros k k)
       \<and> bind_err (multiply (tile_cols (reshape_col pathweight) (ncols z_tt)) z_tt)
            (matmul (t z_t0)) = Inr (zeros k k)
       \<and> bind_err (multiply (tile_cols (reshape_col pathweight) (ncols z_tt)) z_t0)
            (matmul (t z_tt)) = Inr (zeros k k)
       \<and> bind_err (multiply (tile_cols (reshape_col pathweight) (ncols z_tt)) z_tt)
            (matmul (t z_tt)) = Inr (zeros k k)"
proof -
  have z: "increment [] A B = zeros k k" if "ncols A = k" "ncols B = k" for A B :: "'a tensor"
    using that by (simp add: increment_def zeros_def)
  have inc: "bind_err (multiply (tile_cols (reshape_col pathweight) (ncols z_tt)) B) (matmul (t A))
             = Inr (zeros k k)"
    if "nrows A = 0" "nrows B = 0" "ncols A = k" "ncols B = k" for A B :: "'a tensor"
    using matmul_weighted [of A "[]" B] that assms(3,5) by (simp add: z)
  have "accumulate_correlation_matrices z_t0 z_tt [] C00 C01 C10 C11 = Inr (C00, C01, C10, C11)"
    using assms by (simp add: accumulate_unfold z zeros_def iadd_zero)
  then have main: "accumulate_correlation_matrices z_t0 z_tt pathweight C00 C01 C10 C11
             = Inr (C00, C01, C10, C11)"
    by (simp add: assms(3))
  show ?thesis
    by (intro conjI main inc) (fact assms)+
qed

theorem accumulate_empty_batch_witness:
  "accumulate_correlation_matrices (Tensor 2 []) (Tensor 2 []) ([] :: real list)
     (Tensor 2 [[1, 2], [3, 4]]) (Tensor 2 [[5, 6], [7, 8]])
     (Tensor 2 [[9, 10], [11, 12]]) (Tensor 2 [[13, 14], [15, 16]])
   = Inr (Tensor 2 [[1, 2], [3, 4]], Tensor 2 [[5, 6], [7, 8]],
          Tensor 2 [[9, 10], [11, 12]], Tensor 2 [[13, 14], [15, 16]])"
  using accumulate_empty_batch [of "Tensor 2 []" "Tensor 2 []" "[] :: real list" 2
      "Tensor 2 [[1, 2], [3, 4]]" "Tensor 2 [[5, 6], [7, 8]]"
      "Tensor 2 [[9, 10], [11, 12]]" "Tensor 2 [[13, 14], [15, 16]]"]
  by (simp add: nrows_def wf_tensor_def)

section \<open>The cross-correlation increments are transposes\<close>

text \<open>
  C3, as the code behaves. After one call on zero accumulators, \<open>C10\<close> is the transpose
  of \<open>C01\<close> for every pathweight vector, not only for the all-ones one: entry \<open>(i, j)\<close>
  of \<open>C10\<close> is \<open>\<Sum>r. z_tt[r, i] * (p[r] * z_t0[r, j])\<close> and entry \<open>(j, i)\<close> of \<open>C01\<close> is
  \<open>\<Sum>r. z_t0[r, j] * (p[r] * z_tt[r, i])\<close>; the products agree term by term.
\<close>

theorem accumulate_transposes:
  fixes z_t0 :: "'a::{comm_monoid_add,ab_semigroup_mult} tensor"
  assumes "nrows z_t0 = length pathweight" "nrows z_tt = length pathweight"
    and "ncols z_t0 = k" "ncols z_tt = k"
  shows "\<exists>C00 C01 C10 C11.
           accumulate_correlation_matrices z_t0 z_tt pathweight
             (zeros k k) (zeros k k) (zeros k k) (zeros k k) = Inr (C00, C01, C10, C11)
           \<and> C10 = t C01"
proof -
  have "iadd (zeros k k) (increment pathweight A B) = Inr (increment pathweight A B)"
    if "ncols A = k" "ncols B = k" for A B :: "'a tensor"
    using that by (simp add: increment_def iadd_zeros)
  then have "accumulate_correlation_matrices z_t0 z_tt pathweight
             (zeros k k) (zeros k k) (zeros k k) (zeros k k)
        = Inr (increment pathweight z_t0 z_t0, increment pathweight z_t0 z_tt,
               increment pathweight z_tt z_t0, increment pathweight z_tt z_tt)"
    using assms by (simp add: accumulate_unfold)
  then show ?thesis
    by (simp add: t_increment)
qed

theorem accumulate_transposes_witness:
  "\<exists>C00 C01 C10 C11.
     accumulate_correlation_matrices (Tensor 2 [[1, 2], [3, 4]]) (Tensor 2 [[5, 6], [7, 8]])
       [2, 3 :: real] (zeros 2 2) (zeros 2 2) (zeros 2 2) (zeros 2 2) = Inr (C00, C01, C10, C11)
     \<and> C10 = t C01"
  by (rule accumulate_transposes) (simp_all add: nrows_def)

text \<open>
  C3, as stated, fails: with pathweight \<open>[2, 3]\<close>, which is not identically 1, the two
  results are transposes of each other all the same.
\<close>

theorem transposes_only_unweighted_counterexample:
  "accumulate_correlation_matrices (Tensor 2 [[1, 2], [3, 4]]) (Tensor 2 [[5, 6], [7, 8]])
     [2, 3 :: real] (zeros 2 2) (zeros 2 2) (zeros 2 2) (zeros 2 2)
   = Inr (Tensor 2 [[29, 40], [40, 56]], Tensor 2 [[73, 84], [104, 120]],
          Tensor 2 [[73, 104], [84, 120]], Tensor 2 [[197, 228], [228, 264]])
   \<and> Tensor 2 [[73, 104], [84, 120]] = t (Tensor 2 [[73, 84], [104, 120 :: real]])
   \<and> [2, 3 :: real] \<noteq> [1, 1]"
  by (simp add: accumulate_correlation_matrices_def multiply_def pointwise_def bdim_def
      expand_def tabulate_def entry_def nrows_def matmul_def iadd_def t_def tile_cols_def
      reshape_col_def zeros_def Let_def upt_rec)

section \<open>Additivity over batches\<close>

text \<open>
  C6. Accumulating batch \<open>a\<close> and then batch \<open>b\<close> gives the same result as accumulating
  once the row-wise concatenation of the two with the concatenated pathweights, from the
  same initial accumulators: the same four matrices, or the same error when an
  accumulator has a shape the increments do not fit. Entries are exact here, so the
  two results are equal and not only close.
\<close>

theorem accumulate_additive:
  fixes C00 :: "'a::{comm_monoid_add,times} tensor"
  assumes "nrows a_t0 = length pa" "nrows a_tt = length pa" "ncols a_t0 = k" "ncols a_tt = k"
    and "nrows b_t0 = length pb" "nrows b_tt = length pb" "ncols b_t0 = k" "ncols b_tt = k"
  shows "bind_err (accumulate_correlation_matrices a_t0 a_tt pa C00 C01 C10 C11)
           (\<lambda>(C00', C01', C10', C11').
              accumulate_correlation_matrices b_t0 b_tt pb C00' C01' C10' C11')
         = bind_err (cat_rows a_t0 b_t0) (\<lambda>z_t0.
           bind_err (cat_rows a_tt b_tt) (\<lambda>z_tt.
             accumulate_correlation_matrices z_t0 z_tt (pa @ pb) C00 C01 C10 C11))"
proof -
  obtain z_t0 z_tt where z: "cat_rows a_t0 b_t0 = Inr z_t0" "cat_rows a_tt b_tt = Inr z_tt"
    using assms by (simp add: cat_rows_def)
  have sh: "nrows z_t0 = length (pa @ pb)" "nrows z_tt = length (pa @ pb)" "ncols z_t0 = ncols z_tt"
    using shape_cat [OF z(1)] shape_cat [OF z(2)] assms by simp_all
  have ua: "accumulate_correlation_matrices a_t0 a_tt pa X00 X01 X10 X11 =
     bind_err (iadd X00 (increment pa a_t0 a_t0)) (\<lambda>C00'.
     bind_err (iadd X01 (increment pa a_t0 a_tt)) (\<lambda>C01'.
     bind_err (iadd X10 (increment pa a_tt a_t0)) (\<lambda>C10'.
     bind_err (iadd X11 (increment pa a_tt a_tt)) (\<lambda>C11'.
     Inr (C00', C01', C10', C11')))))" for X00 X01 X10 X11
    using assms by (intro accumulate_unfold) simp_all
  have ub: "accumulate_correlation_matrices b_t0 b_tt pb X00 X01 X10 X11 =
     bind_err (iadd X00 (increment pb b_t0 b_t0)) (\<lambda>C00'.
     bind_err (iadd X01 (increment pb b_t0 b_tt)) (\<lambda>C01'.
     bind_err (iadd X10 (increment pb b_tt b_t0)) (\<lambda>C10'.
     bind_err (iadd X11 (increment pb b_tt b_tt)) (\<lambda>C11'.
     Inr (C00', C01', C10', C11')))))" for X00 X01 X10 X11
    using assms by (intro accumulate_unfold) simp_all
  have uz: "accumulate_correlation_matrices z_t0 z_tt (pa @ pb) C00 C01 C10 C11 =
     bind_err (iadd C00 (increment (pa @ pb) z_t0 z_t0)) (\<lambda>C00'.
     bind_err (iadd C01 (increment (pa @ pb) z_t0 z_tt)) (\<lambda>C01'.
     bind_err (iadd C10 (increment (pa @ pb) z_tt z_t0)) (\<lambda>C10'.
     bind_err (iadd C11 (increment (pa @ pb) z_tt z_tt)) (\<lambda>C11'.
     Inr (C00', C01', C10', C11')))))"
    using sh by (rule accumulate_unfold)
  have i: "iadd C (increment (pa @ pb) z_t0 z_t0)
             = bind_err (iadd C (increment pa a_t0 a_t0)) (\<lambda>C'. iadd C' (increment pb b_t0 b_t0))"
          "iadd C (increment (pa @ pb) z_t0 z_tt)
             = bind_err (iadd C (increment pa a_t0 a_tt)) (\<lambda>C'. iadd C' (increment pb b_t0 b_tt))"
          "iadd C (increment (pa @ pb) z_tt z_t0)
             = bind_err (iadd C (increment pa a_tt a_t0)) (\<lambda>C'. iadd C' (increment pb b_tt b_t0))"
          "iadd C (increment (pa @ pb) z_tt z_tt)
             = bind_err (iadd C (increment pa a_tt a_tt)) (\<lambda>C'. iadd C' (increment pb b_tt b_tt))"
    for C
    using z assms by (simp_all add: iadd_increment_cat)
  show ?thesis
    unfolding z bind_err_simps uz i ua ub
    by (auto simp: bind_err_def split: sum.splits dest: iadd_Inl)
qed

theorem accumulate_additive_witness:
  "bind_err (accumulate_correlation_matrices (Tensor 2 [[1, 2]]) (Tensor 2 [[3, 4]]) [2 :: real]
               (zeros 2 2) (zeros 2 2) (zeros 2 2) (zeros 2 2))
     (\<lambda>(C00', C01', C10', C11').
        accumulate_correlation_matrices (Tensor 2 [[5, 6], [7, 8]]) (Tensor 2 [[9, 10], [11, 12]])
          [3, 4] C00' C01' C10' C11')
   = bind_err (cat_rows (Tensor 2 [[1, 2]]) (Tensor 2 [[5, 6], [7, 8]])) (\<lambda>z_t0.
     bind_err (cat_rows (Tensor 2 [[3, 4]]) (Tensor 2 [[9, 10], [11, 12]])) (\<lambda>z_tt.
       accumulate_correlation_matrices z_t0 z_tt ([2] @ [3, 4])
         (zeros 2 2) (zeros 2 2) (zeros 2 2) (zeros 2 2)))"
  by (rule accumulate_additive [where k = 2]) (simp_all add: nrows_def)

section \<open>The symmetry check of the stabilizer\<close>

text \<open>
  C8, as the code behaves. For a square matrix \<open>A\<close> of finite values,
  \<^verbatim>\<open>stable_symmetric_inverse\<close> fails with the assertion error exactly when some
  pair of entries has \<open>|A[i,j] - A[j,i]| > 1e-6 + 1e-5 * |A[j,i]|\<close>: the relative
  tolerance \<open>1e-5\<close> that \<^verbatim>\<open>torch.allclose\<close> has by default is added to the absolute
  one. In particular every \<open>A\<close> that is symmetric within the absolute tolerance
  \<open>1e-6\<close> passes the check.
\<close>

theorem symmetry_check_iff:
  assumes "wf_tensor R" "nrows R = n" "ncols R = n"
  shows "(stable_symmetric_inverse P (finite_tensor R) ret_sqrt = Inl AssertionError
          \<longleftrightarrow> (\<exists>i<n. \<exists>j<n. 1 / 10 ^ 6 + \<bar>1 / 10 ^ 5 * entry R j i\<bar> < \<bar>entry R i j - entry R j i\<bar>))
       \<and> ((\<forall>i<n. \<forall>j<n. \<bar>entry R i j - entry R j i\<bar> \<le> 1 / 10 ^ 6)
          \<longrightarrow> stable_symmetric_inverse P (finite_tensor R) ret_sqrt \<noteq> Inl AssertionError)"
proof -
  let ?ok = "\<forall>i<n. \<forall>j<n. \<bar>entry R i j - entry R j i\<bar> \<le> 1 / 10 ^ 6 + \<bar>1 / 10 ^ 5 * entry R j i\<bar>"
  have tol: "(0::real) \<le> 1 / 10 ^ 6" by simp
  have iff: "stable_symmetric_inverse P (finite_tensor R) ret_sqrt = Inl AssertionError \<longleftrightarrow> \<not> ?ok"
    unfolding stable_symmetric_inverse_def allclose_square [OF assms tol] bind_err_simps
    using after_check_not_assert [where P = P and A = "finite_tensor R" and ret_sqrt = ret_sqrt]
    by (simp del: One_nat_def)
  have "?ok" if "\<forall>i<n. \<forall>j<n. \<bar>entry R i j - entry R j i\<bar> \<le> 1 / 10 ^ 6"
  proof (intro allI impI)
    fix i j assume "i < n" "j < n"
    with that have "\<bar>entry R i j - entry R j i\<bar> \<le> 1 / 10 ^ 6" by blast
    moreover have "0 \<le> \<bar>1 / 10 ^ 5 * entry R j i\<bar>" by simp
    ultimately show "\<bar>entry R i j - entry R j i\<bar> \<le> 1 / 10 ^ 6 + \<bar>1 / 10 ^ 5 * entry R j i\<bar>"
      by linarith
  qed
  then have snd: "(\<forall>i<n. \<forall>j<n. \<bar>entry R i j - entry R j i\<bar> \<le> 1 / 10 ^ 6)
          \<longrightarrow> stable_symmetric_inverse P (finite_tensor R) ret_sqrt \<noteq> Inl AssertionError"
    unfolding iff by blast
  have "(\<not> ?ok) \<longleftrightarrow> (\<exists>i<n. \<exists>j<n. 1 / 10 ^ 6 + \<bar>1 / 10 ^ 5 * entry R j i\<bar> < \<bar>entry R i j - entry R j i\<bar>)"
    by (meson not_le)
  with iff snd show ?thesis
    by blast
qed

theorem symmetry_check_iff_witness:
  "stable_symmetric_inverse
     \<lparr>linalg_cholesky = (\<lambda>M. None), linalg_inv = (\<lambda>M. None), linalg_eigh = (\<lambda>M. None)\<rparr>
     (finite_tensor (Tensor 2 [[0, 1], [2, 0]])) False = Inl AssertionError
   \<and> stable_symmetric_inverse
     \<lparr>linalg_cholesky = (\<lambda>M. None), linalg_inv = (\<lambda>M. None), linalg_eigh = (\<lambda>M. None)\<rparr>
     (finite_tensor (Tensor 2 [[2, 1], [1, 3]])) False \<noteq> Inl AssertionError"
proof -
  let ?P = "\<lparr>linalg_cholesky = (\<lambda>M. None), linalg_inv = (\<lambda>M. None),
             linalg_eigh = (\<lambda>M. None :: (fl list \<times> fl tensor) option)\<rparr>"
  let ?R = "Tensor 2 [[0, 1], [2, 0 :: real]]"
  let ?S = "Tensor 2 [[2, 1], [1, 3 :: real]]"
  have R: "wf_tensor ?R" "nrows ?R = 2" "ncols ?R = 2"
    by (simp_all add: wf_tensor_def nrows_def)
  have S: "wf_tensor ?S" "nrows ?S = 2" "ncols ?S = 2"
    by (simp_all add: wf_tensor_def nrows_def)
  have "\<exists>i<2. \<exists>j<2. 1 / 10 ^ 6 + \<bar>1 / 10 ^ 5 * entry ?R j i\<bar> < \<bar>entry ?R i j - entry ?R j i\<bar>"
  proof -
    have "(0::nat) < 2 \<and> (1::nat) < 2
          \<and> 1 / 10 ^ 6 + \<bar>1 / 10 ^ 5 * entry ?R 1 0\<bar> < \<bar>entry ?R 0 1 - entry ?R 1 0\<bar>"
      by (simp add: entry_def)
    then show ?thesis by blast
  qed
  with symmetry_check_iff [OF R, of ?P False]
  have 1: "stable_symmetric_inverse ?P (finite_tensor ?R) False = Inl AssertionError"
    by blast
  have "\<forall>i<2. \<forall>j<2. \<bar>entry ?S i j - entry ?S j i\<bar> \<le> 1 / 10 ^ 6"
    by (simp add: entry_def less_Suc_eq numeral_2_eq_2)
  with symmetry_check_iff [OF S, of ?P False]
  have 2: "stable_symmetric_inverse ?P (finite_tensor ?S) False \<noteq> Inl AssertionError"
    by blast
  from 1 2 show ?thesis by simp
qed

text \<open>
  C8, as stated, fails. The matrix below differs from its transpose by \<open>1/128\<close> in the
  off-diagonal pair, far more than \<open>1e-6\<close>, and still passes the assert, since
  \<open>1/128 \<le> 1e-6 + 1e-5 * 1200\<close>; the call goes on to the eigendecomposition (of the
  lower triangle: eigenvalues 2500 and 5000) and returns a matrix.
\<close>

theorem symmetry_atol_counterexample:
  "\<not> \<bar>entry (Tensor 2 [[3400, 1200 + 1 / 128], [1200, 4100 :: real]]) 0 1
       - entry (Tensor 2 [[3400, 1200 + 1 / 128], [1200, 4100 :: real]]) 1 0\<bar> \<le> 1 / 10 ^ 6
   \<and> stable_symmetric_inverse
       \<lparr>linalg_cholesky = (\<lambda>M. None), linalg_inv = (\<lambda>M. None),
        linalg_eigh = (\<lambda>M. Some ([Fin 2500, Fin 5000],
                       Tensor 2 [[Fin (4 / 5), Fin (3 / 5)], [Fin (- 3 / 5), Fin (4 / 5)]]))\<rparr>
       (finite_tensor (Tensor 2 [[3400, 1200 + 1 / 128], [1200, 4100]])) False
     = Inr (Tensor 2 [[Fin (41 / 125000), Fin (- 3 / 31250)],
                      [Fin (- 3 / 31250), Fin (17 / 62500)]])"
  by (simp add: stable_symmetric_inverse_def allclose_def pointwise_def bdim_def
      expand_def tabulate_def entry_def nrows_def matmul_def t_def diag_def finite_tensor_def
      Let_def eps32_def zero_fl_def upt_rec)

section \<open>The stabilizer at a singular matrix\<close>

text \<open>
  C2. The threshold does replace an eigenvalue at or below the 32-bit epsilon by zero,
  but the zero is then raised to a negative power with nothing guarding it, and the
  result is not free of infinities and NaN. At the \<open>1 \<times> 1\<close> zero matrix (eigenvalue 0,
  eigenvector 1) the result is \<open>[[\<infinity>]]\<close>, with and without \<^verbatim>\<open>ret_sqrt\<close>; at
  \<open>[[1, 0], [0, 0]]\<close> (eigenvalues 0 and 1) it is \<open>[[NaN, NaN], [NaN, \<infinity>]]\<close>.
\<close>

theorem stable_symmetric_inverse_singular:
  "stable_symmetric_inverse
     \<lparr>linalg_cholesky = (\<lambda>M. None), linalg_inv = (\<lambda>M. None),
      linalg_eigh = (\<lambda>M. Some ([Fin 0], Tensor 1 [[Fin 1]]))\<rparr>
     (Tensor 1 [[Fin 0]]) False = Inr (Tensor 1 [[PInf]])
   \<and> stable_symmetric_inverse
     \<lparr>linalg_cholesky = (\<lambda>M. None), linalg_inv = (\<lambda>M. None),
      linalg_eigh = (\<lambda>M. Some ([Fin 0], Tensor 1 [[Fin 1]]))\<rparr>
     (Tensor 1 [[Fin 0]]) True = Inr (Tensor 1 [[PInf]])
   \<and> stable_symmetric_inverse
     \<lparr>linalg_cholesky = (\<lambda>M. None), linalg_inv = (\<lambda>M. None),
      linalg_eigh = (\<lambda>M. Some ([Fin 0, Fin 1], Tensor 2 [[Fin 0, Fin 1], [Fin 1, Fin 0]]))\<rparr>
     (Tensor 2 [[Fin 1, Fin 0], [Fin 0, Fin 0]]) False
     = Inr (Tensor 2 [[NaN, NaN], [NaN, PInf]])"
  by (simp add: stable_symmetric_inverse_def allclose_def pointwise_def bdim_def
      expand_def tabulate_def entry_def nrows_def matmul_def t_def diag_def
      Let_def eps32_def zero_fl_def inf_of_sign_def upt_rec)

section \<open>The failure of the Cholesky factorisation\<close>



section \<open>No symmetry check on C\<close>

text \<open>
  C9. \<^verbatim>\<open>gen_eig_chol\<close> never looks at the symmetry of \<open>C\<close>. For every \<open>n \<times> n\<close>
  matrix \<open>C\<close>, symmetric or not, and primitives that return on the arguments they get
  here (the inverse of the Cholesky factor and of its transpose, the eigendecomposition
  of a square matrix), the call either fails with the \<^verbatim>\<open>ValueError\<close> because the
  Cholesky factorisation of \<open>Q\<close> failed, or returns a pair \<open>(w, v)\<close>.
\<close>

theorem no_symmetry_check:
  fixes C :: "'a::{comm_monoid_add,times} tensor"
  assumes "nrows C = n" "ncols C = n"
    and chol: "\<And>L. linalg_cholesky P Q = Some L \<Longrightarrow> nrows L = n \<and> ncols L = n
            \<and> (\<exists>Linv. linalg_inv P L = Some Linv \<and> nrows Linv = n \<and> ncols Linv = n)
            \<and> (\<exists>LTinv. linalg_inv P (t L) = Some LTinv \<and> nrows LTinv = n \<and> ncols LTinv = n)"
    and eigh: "\<And>M. nrows M = n \<Longrightarrow> ncols M = n \<Longrightarrow> \<exists>w V. linalg_eigh P M = Some (w, V) \<and> nrows V = n"
  shows "(linalg_cholesky P Q = None \<and> gen_eig_chol P C Q = Inl (ValueError cholesky_message))
       \<or> (\<exists>L w v. linalg_cholesky P Q = Some L \<and> gen_eig_chol P C Q = Inr (w, v))"
proof (cases "linalg_cholesky P Q")
  case None
  then show ?thesis by (simp add: gen_eig_chol_def)
next
  case (Some L)
  from chol [OF Some] obtain Linv LTinv where
    L: "nrows L = n" "ncols L = n"
    and Li: "linalg_inv P L = Some Linv" "nrows Linv = n" "ncols Linv = n"
    and Lti: "linalg_inv P (t L) = Some LTinv" "nrows LTinv = n" "ncols LTinv = n"
    by blast
  from eigh [of "mm Linv (mm C LTinv)"] obtain w V where
    e: "linalg_eigh P (mm Linv (mm C LTinv)) = Some (w, V)" "nrows V = n"
    using Li Lti by auto
  have "gen_eig_chol P C Q = Inr (flip0 w, flip1 (mm LTinv V))"
    using Some L Li Lti assms(1,2) e by (rule gen_eig_chol_success)
  with Some show ?thesis by simp
qed

theorem no_symmetry_check_witness:
  "t (Tensor 2 [[136 / 25, 168 / 25], [116 / 25, 272 / 25 :: real]])
     \<noteq> Tensor 2 [[136 / 25, 168 / 25], [116 / 25, 272 / 25]]
   \<and> (\<exists>L w v.
     linalg_cholesky \<lparr>linalg_cholesky = (\<lambda>M. Some (Tensor 2 [[2, 0], [1, 2]])),
      linalg_inv = (\<lambda>M. if M = Tensor 2 [[2, 0], [1, 2]]
                         then Some (Tensor 2 [[1 / 2, 0], [- 1 / 4, 1 / 2]])
                         else Some (Tensor 2 [[1 / 2, - 1 / 4], [0, 1 / 2]])),
      linalg_eigh = (\<lambda>M. Some ([1, 2], Tensor 2 [[4 / 5, 3 / 5], [- 3 / 5, 4 / 5]]))\<rparr> (Tensor 2 [[4, 2], [2, 5 :: real]]) = Some L
     \<and> gen_eig_chol \<lparr>linalg_cholesky = (\<lambda>M. Some (Tensor 2 [[2, 0], [1, 2]])),
      linalg_inv = (\<lambda>M. if M = Tensor 2 [[2, 0], [1, 2]]
                         then Some (Tensor 2 [[1 / 2, 0], [- 1 / 4, 1 / 2]])
                         else Some (Tensor 2 [[1 / 2, - 1 / 4], [0, 1 / 2]])),
      linalg_eigh = (\<lambda>M. Some ([1, 2], Tensor 2 [[4 / 5, 3 / 5], [- 3 / 5, 4 / 5]]))\<rparr>
       (Tensor 2 [[136 / 25, 168 / 25], [116 / 25, 272 / 25 :: real]]) (Tensor 2 [[4, 2], [2, 5]])
       = Inr (w, v))"
proof -
  let ?P = "\<lparr>linalg_cholesky = (\<lambda>M. Some (Tensor 2 [[2, 0], [1, 2]])),
      linalg_inv = (\<lambda>M. if M = Tensor 2 [[2, 0], [1, 2]]
                         then Some (Tensor 2 [[1 / 2, 0], [- 1 / 4, 1 / 2]])
                         else Some (Tensor 2 [[1 / 2, - 1 / 4], [0, 1 / 2]])),
      linalg_eigh = (\<lambda>M. Some ([1, 2], Tensor 2 [[4 / 5, 3 / 5], [- 3 / 5, 4 / 5]]))\<rparr> :: real linalg"
  let ?C = "Tensor 2 [[136 / 25, 168 / 25], [116 / 25, 272 / 25 :: real]]"
  let ?Q = "Tensor 2 [[4, 2], [2, 5 :: real]]"
  have "(linalg_cholesky ?P ?Q = None \<and> gen_eig_chol ?P ?C ?Q = Inl (ValueError cholesky_message))
       \<or> (\<exists>L w v. linalg_cholesky ?P ?Q = Some L \<and> gen_eig_chol ?P ?C ?Q = Inr (w, v))"
    by (rule no_symmetry_check [where n = 2]) (auto simp: nrows_def)
  moreover have "t ?C \<noteq> ?C"
    by (simp add: t_def tabulate_def entry_def nrows_def upt_rec)
  ultimately show ?thesis by simp
qed

section \<open>The order of the eigenvalues and of the eigenvectors\<close>

text \<open>
  C5. With the eigenvalues \<open>w\<close> of the reduced problem in ascending order, as the
  eigendecomposition primitive returns them, the eigenvalues that \<^verbatim>\<open>gen_eig_chol\<close>
  returns are in non-ascending order, and the same reversal is applied to the columns
  of the eigenvector matrix: position \<open>i\<close> of the result holds eigenvalue \<open>n - 1 - i\<close>
  and the back-transformed eigenvector \<open>n - 1 - i\<close>.
\<close>

theorem sorted_and_mirrored:
  fixes C :: "'a::{linorder,comm_monoid_add,times} tensor"
  assumes "linalg_cholesky P Q = Some L" "nrows L = n" "ncols L = n"
    and "linalg_inv P L = Some Linv" "nrows Linv = n" "ncols Linv = n"
    and "linalg_inv P (t L) = Some LTinv" "nrows LTinv = n" "ncols LTinv = n"
    and "nrows C = n" "ncols C = n"
    and "linalg_eigh P (mm Linv (mm C LTinv)) = Some (w, vtilde)" "nrows vtilde = n"
    and "ncols vtilde = n" "length w = n" "sorted w"
  shows "\<exists>w' v'. gen_eig_chol P C Q = Inr (w', v')
           \<and> sorted_wrt (\<lambda>x y. y \<le> x) w'
           \<and> (\<forall>i<n. w' ! i = w ! (n - 1 - i)
                    \<and> column v' i = column (mm LTinv vtilde) (n - 1 - i))"
proof -
  have r: "gen_eig_chol P C Q = Inr (flip0 w, flip1 (mm LTinv vtilde))"
    using assms(1-13) by (rule gen_eig_chol_success)
  have s: "sorted_wrt (\<lambda>x y. y \<le> x) (flip0 w)"
    using assms(16) by (simp add: flip0_def sorted_wrt_rev)
  have "flip0 w ! i = w ! (n - 1 - i)" if "i < n" for i
    using that assms(15) by (simp add: flip0_def rev_nth)
  moreover have "column (flip1 (mm LTinv vtilde)) i = column (mm LTinv vtilde) (n - 1 - i)"
    if "i < n" for i
    using that assms(14) by (intro column_flip1) simp_all
  ultimately show ?thesis
    using r s by blast
qed

theorem sorted_and_mirrored_witness:
  "\<exists>w' v'. gen_eig_chol \<lparr>linalg_cholesky = (\<lambda>M. Some (Tensor 2 [[2, 0], [1, 2]])),
      linalg_inv = (\<lambda>M. if M = Tensor 2 [[2, 0], [1, 2]]
                         then Some (Tensor 2 [[1 / 2, 0], [- 1 / 4, 1 / 2]])
                         else Some (Tensor 2 [[1 / 2, - 1 / 4], [0, 1 / 2]])),
      linalg_eigh = (\<lambda>M. Some ([1, 2], Tensor 2 [[4 / 5, 3 / 5], [- 3 / 5, 4 / 5]]))\<rparr>
       (Tensor 2 [[136 / 25, 116 / 25], [116 / 25, 246 / 25 :: real]]) (Tensor 2 [[4, 2], [2, 5]])
       = Inr (w', v')
     \<and> sorted_wrt (\<lambda>x y. y \<le> x) w'
     \<and> (\<forall>i<2. w' ! i = [1, 2] ! (2 - 1 - i)
              \<and> column v' i
                = column (mm (Tensor 2 [[1 / 2, - 1 / 4], [0, 1 / 2]])
                             (Tensor 2 [[4 / 5, 3 / 5], [- 3 / 5, 4 / 5]])) (2 - 1 - i))"
  by (rule sorted_and_mirrored [where L = "Tensor 2 [[2, 0], [1, 2]]"
        and Linv = "Tensor 2 [[1 / 2, 0], [- 1 / 4, 1 / 2]]"])
     (simp_all add: nrows_def t_def tabulate_def entry_def upt_rec)

section \<open>The generalized eigenvalue equation\<close>

text \<open>
  C1. Let \<open>C\<close> be symmetric and let the primitives keep their contracts on the
  arguments they get: the Cholesky factor \<open>L\<close> of \<open>Q\<close> has \<open>L \<cdot> L\<^sup>T = Q\<close>, the two
  inverses are inverses, and the eigendecomposition of a symmetric matrix \<open>M\<close> returns
  \<open>(w, V)\<close> with \<open>M \<cdot> V = V \<cdot> diag w\<close>. Then \<^verbatim>\<open>gen_eig_chol\<close> returns \<open>(w, v)\<close> with
  \<open>C \<cdot> v\<^sub>i = w\<^sub>i * (Q \<cdot> v\<^sub>i)\<close> for every column \<open>v\<^sub>i\<close> of \<open>v\<close>. Arithmetic is exact here, so
  the two sides are equal; the tolerance of the claim is for the rounding that the
  model leaves out.
\<close>

theorem generalized_eigenpairs:
  fixes C :: "'a::comm_semiring_1 tensor"
  assumes C: "wf_tensor C" "nrows C = n" "ncols C = n" and sym: "t C = C"
    and L: "linalg_cholesky P Q = Some L" "wf_tensor L" "nrows L = n" "ncols L = n"
    and Q: "mm L (t L) = Q"
    and Linv: "linalg_inv P L = Some Linv" "wf_tensor Linv" "nrows Linv = n" "ncols Linv = n"
    and Linv_r: "mm L Linv = eye n"
    and LTinv: "linalg_inv P (t L) = Some LTinv" "wf_tensor LTinv" "nrows LTinv = n" "ncols LTinv = n"
    and LTinv_r: "mm (t L) LTinv = eye n"
    and eigh: "linalg_eigh P (mm Linv (mm C LTinv)) = Some (w, vtilde)"
      "wf_tensor vtilde" "nrows vtilde = n" "ncols vtilde = n" "length w = n"
    and eigh_eq: "t (mm Linv (mm C LTinv)) = mm Linv (mm C LTinv) \<Longrightarrow>
                  mm (mm Linv (mm C LTinv)) vtilde = mm vtilde (diag w)"
  shows "\<exists>w' v'. gen_eig_chol P C Q = Inr (w', v') \<and> length w' = n \<and> ncols v' = n
           \<and> (\<forall>i<n. mv C (column v' i) = map (\<lambda>x. w' ! i * x) (mv Q (column v' i)))"
proof -
  let ?Ct = "mm Linv (mm C LTinv)"
  let ?V = "mm LTinv vtilde"
  have r: "gen_eig_chol P C Q = Inr (flip0 w, flip1 ?V)"
    using L(1,3,4) Linv(1,3,4) LTinv(1,3,4) C(2,3) eigh(1,3) by (rule gen_eig_chol_success)
  have "mm (t Linv) (t L) = eye n"
    using t_mm [of L Linv] Linv L by (simp add: Linv_r t_eye)
  then have "mm (mm (t Linv) (t L)) LTinv = LTinv"
    using LTinv by (simp add: mm_eye_left)
  moreover have "mm (t Linv) (mm (t L) LTinv) = t Linv"
    using Linv by (simp add: LTinv_r mm_eye_right)
  ultimately have tLinv: "t Linv = LTinv"
    using mm_assoc [of "t Linv" "t L" LTinv] L Linv LTinv by simp
  have "t ?Ct = mm (mm (t LTinv) (t C)) (t Linv)"
    using C Linv LTinv by (simp add: t_mm)
  also have "t LTinv = Linv"
    using tLinv [symmetric] Linv(2) by (simp add: t_t)
  also have "mm (mm Linv (t C)) (t Linv) = ?Ct"
    using C Linv LTinv by (simp add: sym tLinv mm_assoc)
  finally have eq: "mm ?Ct vtilde = mm vtilde (diag w)"
    by (rule eigh_eq)
  have QV: "mm Q ?V = mm L vtilde"
  proof -
    have "mm Q ?V = mm L (mm (mm (t L) LTinv) vtilde)"
      using L LTinv eigh by (simp add: Q [symmetric] mm_assoc)
    then show ?thesis
      using eigh by (simp add: LTinv_r mm_eye_left)
  qed
  have "mm (mm Q ?V) (diag w) = mm L (mm ?Ct vtilde)"
    using L eigh by (simp add: QV eq mm_assoc diag_def)
  also have "\<dots> = mm (mm L Linv) (mm (mm C LTinv) vtilde)"
    using L Linv LTinv C eigh by (simp add: mm_assoc)
  also have "\<dots> = mm C ?V"
    using L Linv LTinv C eigh by (simp add: Linv_r mm_eye_left mm_assoc)
  finally have main: "mm C ?V = mm (mm Q ?V) (diag w)" by simp
  have wfQ: "wf_tensor Q" "ncols Q = n"
    using Q L by auto
  have col: "mv C (column ?V k) = map (\<lambda>x. w ! k * x) (mv Q (column ?V k))" if "k < n" for k
  proof -
    have "mv C (column ?V k) = column (mm C ?V) k"
      using that C LTinv eigh by (simp add: mv_column_mm)
    also have "\<dots> = map (\<lambda>x. w ! k * x) (column (mm Q ?V) k)"
      unfolding main using that eigh by (simp add: column_mm_diag)
    also have "column (mm Q ?V) k = mv Q (column ?V k)"
      using that wfQ LTinv eigh by (simp add: mv_column_mm)
    finally show ?thesis .
  qed
  have "mv C (column (flip1 ?V) i) = map (\<lambda>x. flip0 w ! i * x) (mv Q (column (flip1 ?V) i))"
    if "i < n" for i
  proof -
    have "column (flip1 ?V) i = column ?V (n - 1 - i)"
      using that eigh by (intro column_flip1) simp_all
    moreover have "flip0 w ! i = w ! (n - 1 - i)"
      using that eigh by (simp add: flip0_def rev_nth)
    moreover have "n - 1 - i < n" using that by simp
    ultimately show ?thesis using col by simp
  qed
  moreover have "length (flip0 w) = n" "ncols (flip1 ?V) = n"
    using eigh by (simp_all add: flip0_def flip1_def)
  ultimately show ?thesis
    using r by blast
qed

theorem generalized_eigenpairs_witness:
  "\<exists>w' v'. gen_eig_chol \<lparr>linalg_cholesky = (\<lambda>M. Some (Tensor 2 [[2, 0], [1, 2]])),
      linalg_inv = (\<lambda>M. if M = Tensor 2 [[2, 0], [1, 2]]
                         then Some (Tensor 2 [[1 / 2, 0], [- 1 / 4, 1 / 2]])
                         else Some (Tensor 2 [[1 / 2, - 1 / 4], [0, 1 / 2]])),
      linalg_eigh = (\<lambda>M. Some ([1, 2], Tensor 2 [[4 / 5, 3 / 5], [- 3 / 5, 4 / 5]]))\<rparr>
       (Tensor 2 [[136 / 25, 116 / 25], [116 / 25, 246 / 25 :: real]]) (Tensor 2 [[4, 2], [2, 5]])
       = Inr (w', v')
     \<and> length w' = 2 \<and> ncols v' = 2
     \<and> (\<forall>i<2. mv (Tensor 2 [[136 / 25, 116 / 25], [116 / 25, 246 / 25]]) (column v' i)
              = map (\<lambda>x. w' ! i * x) (mv (Tensor 2 [[4, 2], [2, 5]]) (column v' i)))"
  by (rule generalized_eigenpairs [where L = "Tensor 2 [[2, 0], [1, 2]]"
        and Linv = "Tensor 2 [[1 / 2, 0], [- 1 / 4, 1 / 2]]"
        and LTinv = "Tensor 2 [[1 / 2, - 1 / 4], [0, 1 / 2]]"
        and w = "[1, 2]" and vtilde = "Tensor 2 [[4 / 5, 3 / 5], [- 3 / 5, 4 / 5]]"])
     (simp_all add: nrows_def wf_tensor_def t_def tabulate_def entry_def mm_def eye_def diag_def
        upt_rec)

end
